theory Spec2Isabelle
  imports
    Main
    "HOL-Library.Sublist"
    "HOL-Library.Char_ord"
    "HOL-Library.List_Lexorder"
    "HOL-Library.Multiset"
begin

text \<open>
  A model of \<open>repo_analyzer/file_summary.py\<close>: the pattern matcher, the language table,
  the heuristic summary, the directory scan and the report writer, as functions over an
  explicit file system. Paths follow \<open>pathlib\<close> on POSIX.
\<close>

section \<open>Strings\<close>

text \<open>
  Python strings are modelled as \<^typ>\<open>string\<close>. The orders on characters and on lists are
  the ones of the library: characters by code, lists lexicographically, which is how
  Python compares \<open>str\<close> values and sequences.
\<close>

text \<open>\<open>s.startswith(p)\<close> and \<open>s.endswith(p)\<close>.\<close>

definition startswith :: "string \<Rightarrow> string \<Rightarrow> bool" where
  "startswith s p = (take (length p) s = p)"

definition endswith :: "string \<Rightarrow> string \<Rightarrow> bool" where
  "endswith s p = (length p \<le> length s \<and> drop (length s - length p) s = p)"

text \<open>\<open>sub in s\<close> on strings: \<open>sub\<close> occurs in \<open>s\<close> as a contiguous block.\<close>

fun str_contains :: "string \<Rightarrow> string \<Rightarrow> bool" where
  "str_contains [] sub = (sub = [])"
| "str_contains (c # cs) sub = (startswith (c # cs) sub \<or> str_contains cs sub)"

text \<open>\<open>s.lower()\<close>, on the ASCII letters; every other character is left as it is.\<close>

definition lower_char :: "char \<Rightarrow> char" where
  "lower_char c =
     (case map_of (zip ''ABCDEFGHIJKLMNOPQRSTUVWXYZ'' ''abcdefghijklmnopqrstuvwxyz'') c of
        Some l \<Rightarrow> l
      | None \<Rightarrow> c)"

definition lower :: "string \<Rightarrow> string" where
  "lower s = map lower_char s"

text \<open>\<open>s.replace(a, b)\<close> for single characters \<open>a\<close> and \<open>b\<close>.\<close>

definition replace_char :: "char \<Rightarrow> char \<Rightarrow> string \<Rightarrow> string" where
  "replace_char a b s = map (\<lambda>c. if c = a then b else c) s"

text \<open>\<open>sep.join(xs)\<close>.\<close>

fun join :: "string \<Rightarrow> string list \<Rightarrow> string" where
  "join sep [] = []"
| "join sep [x] = x"
| "join sep (x # y # ys) = x @ sep @ join sep (y # ys)"

text \<open>\<open>s.rfind(c)\<close> for a single character: the index of its last occurrence.\<close>

fun rfind :: "char \<Rightarrow> string \<Rightarrow> nat option" where
  "rfind c [] = None"
| "rfind c (x # xs) =
     (case rfind c xs of
        Some i \<Rightarrow> Some (Suc i)
      | None \<Rightarrow> if x = c then Some 0 else None)"

text \<open>\<open>str(n)\<close> for a natural number: its decimal digits.\<close>

definition digit_char :: "nat \<Rightarrow> char" where
  "digit_char d = ''0123456789'' ! d"

fun str_nat :: "nat \<Rightarrow> string" where
  "str_nat n = (if n < 10 then [digit_char n] else str_nat (n div 10) @ [digit_char (n mod 10)])"

declare str_nat.simps [simp del]

text \<open>
  \<open>s.encode('utf-8')\<close> succeeds. A string stands for the bytes the operating system
  holds; Python decodes a file name with the \<open>surrogateescape\<close> handler, so that a name
  whose bytes are not well-formed UTF-8 contains lone surrogates, which the strict encoder
  of a text file refuses. The test below is the well-formedness of the bytes: no stray
  or missing continuation byte, no overlong form, no encoded surrogate, nothing above
  \<open>U+10FFFF\<close>.
\<close>

definition byte_in :: "nat \<Rightarrow> nat \<Rightarrow> char \<Rightarrow> bool" where
  "byte_in lo hi c = (lo \<le> (of_char c :: nat) \<and> (of_char c :: nat) \<le> hi)"

fun utf8_encodable :: "string \<Rightarrow> bool" where
  "utf8_encodable [] = True"
| "utf8_encodable (c # cs) =
     (let b = (of_char c :: nat) in
      if b < 0x80 then utf8_encodable cs
      else if 0xC2 \<le> b \<and> b \<le> 0xDF then
        (case cs of
           c1 # r \<Rightarrow> byte_in 0x80 0xBF c1 \<and> utf8_encodable r
         | _ \<Rightarrow> False)
      else if 0xE0 \<le> b \<and> b \<le> 0xEF then
        (case cs of
           c1 # c2 # r \<Rightarrow>
             byte_in (if b = 0xE0 then 0xA0 else 0x80) (if b = 0xED then 0x9F else 0xBF) c1 \<and>
             byte_in 0x80 0xBF c2 \<and> utf8_encodable r
         | _ \<Rightarrow> False)
      else if 0xF0 \<le> b \<and> b \<le> 0xF4 then
        (case cs of
           c1 # c2 # c3 # r \<Rightarrow>
             byte_in (if b = 0xF0 then 0x90 else 0x80) (if b = 0xF4 then 0x8F else 0xBF) c1 \<and>
             byte_in 0x80 0xBF c2 \<and> byte_in 0x80 0xBF c3 \<and> utf8_encodable r
         | _ \<Rightarrow> False)
      else False)"

section \<open>Pattern matching of file names\<close>

text \<open>
  \<open>_matches_pattern(filename, patterns)\<close>: the loop over the patterns returns at the first
  pattern that matches.
\<close>

fun matches_pattern :: "string \<Rightarrow> string list \<Rightarrow> bool" where
  "matches_pattern filename [] = False"
| "matches_pattern filename (pattern # patterns) =
     (if startswith pattern ''*'' then
        (if endswith filename (drop 1 pattern) then True
         else matches_pattern filename patterns)
      else if endswith pattern ''*'' then
        (if startswith filename (butlast pattern) then True
         else matches_pattern filename patterns)
      else
        (if filename = pattern then True
         else matches_pattern filename patterns))"

text \<open>
  The specification's wording of one pattern, to compare with the code: a pattern that
  begins with a star is a suffix match on the rest of the pattern, one that ends with a
  star (and does not begin with one) is a prefix match, any other pattern is an exact
  match. A star elsewhere in the pattern is an ordinary character.
\<close>

definition spec_pattern_matches :: "string \<Rightarrow> string \<Rightarrow> bool" where
  "spec_pattern_matches pattern filename =
     (if pattern \<noteq> [] \<and> hd pattern = CHR ''*'' then suffix (tl pattern) filename
      else if pattern \<noteq> [] \<and> last pattern = CHR ''*'' then prefix (butlast pattern) filename
      else filename = pattern)"

section \<open>Paths\<close>

text \<open>
  A \<open>pathlib\<close> path is modelled by its \<open>parts\<close>: the list of its components, an
  absolute path having its anchor as the first part. On POSIX the anchor is \<open>/\<close>, or
  \<open>//\<close> for a path that begins with exactly two slashes.
\<close>

type_synonym path = "string list"

definition is_absolute :: "path \<Rightarrow> bool" where
  "is_absolute p = (p \<noteq> [] \<and> (hd p = ''/'' \<or> hd p = ''//''))"

text \<open>\<open>str(p)\<close> and \<open>p.as_posix()\<close>.\<close>

definition path_str :: "path \<Rightarrow> string" where
  "path_str p =
     (if p = [] then ''.''
      else if is_absolute p then hd p @ join ''/'' (tl p)
      else join ''/'' p)"

text \<open>\<open>p.name\<close>: the last component, empty for the empty path and for the anchor alone.\<close>

definition path_name :: "path \<Rightarrow> string" where
  "path_name p = (if p = [] \<or> (is_absolute p \<and> tl p = []) then [] else last p)"

text \<open>
  \<open>p.suffix\<close> and \<open>p.stem\<close>: the name is cut at its last dot, unless that dot is the
  first or the last character of the name.
\<close>

definition path_suffix :: "path \<Rightarrow> string" where
  "path_suffix p =
     (let name = path_name p in
      case rfind CHR ''.'' name of
        Some i \<Rightarrow> if 0 < i \<and> i + 1 < length name then drop i name else []
      | None \<Rightarrow> [])"

definition path_stem :: "path \<Rightarrow> string" where
  "path_stem p =
     (let name = path_name p in
      case rfind CHR ''.'' name of
        Some i \<Rightarrow> if 0 < i \<and> i + 1 < length name then take i name else name
      | None \<Rightarrow> name)"

text \<open>\<open>p.parent\<close> of a relative path.\<close>

definition path_parent :: "path \<Rightarrow> path" where
  "path_parent p = butlast p"

text \<open>
  \<open>p.relative_to(other)\<close> raises \<open>ValueError\<close> unless \<open>other\<close> is an initial segment of
  \<open>p\<close>; an absolute path is not relative to the empty path.
\<close>

datatype value_error = ValueError

definition relative_to :: "path \<Rightarrow> path \<Rightarrow> value_error + path" where
  "relative_to p other =
     (if (if other = [] then is_absolute p else \<not> prefix other p) then Inl ValueError
      else Inr (drop (length other) p))"

section \<open>Language detection\<close>

definition LANGUAGE_MAP :: "(string \<times> string) list" where
  "LANGUAGE_MAP =
     [(''.py'', ''Python''),
      (''.js'', ''JavaScript''),
      (''.ts'', ''TypeScript''),
      (''.tsx'', ''TypeScript''),
      (''.jsx'', ''JavaScript''),
      (''.java'', ''Java''),
      (''.go'', ''Go''),
      (''.rs'', ''Rust''),
      (''.rb'', ''Ruby''),
      (''.php'', ''PHP''),
      (''.c'', ''C''),
      (''.cpp'', ''C++''),
      (''.cc'', ''C++''),
      (''.cxx'', ''C++''),
      (''.h'', ''C/C++''),
      (''.hpp'', ''C++''),
      (''.cs'', ''C#''),
      (''.swift'', ''Swift''),
      (''.kt'', ''Kotlin''),
      (''.scala'', ''Scala''),
      (''.sh'', ''Shell''),
      (''.bash'', ''Bash''),
      (''.zsh'', ''Zsh''),
      (''.ps1'', ''PowerShell''),
      (''.r'', ''R''),
      (''.m'', ''Objective-C''),
      (''.sql'', ''SQL''),
      (''.html'', ''HTML''),
      (''.css'', ''CSS''),
      (''.scss'', ''SCSS''),
      (''.sass'', ''Sass''),
      (''.less'', ''Less''),
      (''.vue'', ''Vue''),
      (''.md'', ''Markdown''),
      (''.rst'', ''reStructuredText''),
      (''.yml'', ''YAML''),
      (''.yaml'', ''YAML''),
      (''.json'', ''JSON''),
      (''.xml'', ''XML''),
      (''.toml'', ''TOML''),
      (''.ini'', ''INI''),
      (''.cfg'', ''Config''),
      (''.conf'', ''Config'')]"

text \<open>\<open>_get_language(file_path)\<close>.\<close>

definition get_language :: "path \<Rightarrow> string" where
  "get_language file_path =
     (let extension = lower (path_suffix file_path) in
      case map_of LANGUAGE_MAP extension of
        Some language \<Rightarrow> language
      | None \<Rightarrow> ''Unknown'')"

section \<open>The heuristic summary\<close>

text \<open>
  The \<open>try\<close> block of \<open>_generate_heuristic_summary\<close>: the directory components between
  the root and the file, and the empty list when \<open>relative_to\<close> raises.
\<close>

definition path_parts_of :: "path \<Rightarrow> path \<Rightarrow> string list" where
  "path_parts_of file_path root_path =
     (case relative_to file_path root_path of
        Inr rel_path \<Rightarrow> path_parent rel_path
      | Inl ValueError \<Rightarrow> [])"

text \<open>The rule chain, from the first \<open>if\<close> to the default; the first rule that fires returns.\<close>

definition summary_rules :: "string \<Rightarrow> string \<Rightarrow> string \<Rightarrow> string list \<Rightarrow> string" where
  "summary_rules name extension language path_parts =
     (let name_lower = lower name in
      if name_lower \<in> set [''config'', ''configuration'', ''settings'']
        then language @ '' configuration file''
      else if startswith name_lower ''test_'' \<or> endswith name_lower ''_test''
              \<or> startswith name_lower ''test''
        then language @ '' test file''
      else if name_lower \<in> set [''main'', ''index'', ''app'', ''__main__'']
        then language @ '' main entry point''
      else if name_lower \<in> set [''cli'', ''command'', ''commands'']
        then language @ '' command-line interface''
      else if name_lower \<in> set [''utils'', ''util'', ''utilities'', ''helpers'', ''helper'']
        then language @ '' utility functions''
      else if name_lower \<in> set [''model'', ''models'', ''schema'', ''schemas'']
        then language @ '' data models''
      else if name_lower \<in> set [''controller'', ''controllers'', ''handler'', ''handlers'']
        then language @ '' request handlers''
      else if name_lower \<in> set [''view'', ''views'', ''template'', ''templates'']
        then language @ '' view templates''
      else if name_lower \<in> set [''service'', ''services'']
        then language @ '' service layer''
      else if name_lower \<in> set [''repository'', ''repositories'', ''dao'']
        then language @ '' data access layer''
      else if str_contains name_lower ''api''
        then language @ '' API implementation''
      else if str_contains name_lower ''db'' \<or> str_contains name_lower ''database''
        then language @ '' database operations''
      else if str_contains name_lower ''router'' \<or> str_contains name_lower ''routes''
        then language @ '' routing configuration''
      else if str_contains name_lower ''middleware''
        then language @ '' middleware component''
      else if extension \<in> set [''.jsx'', ''.tsx'', ''.vue'']
              \<or> str_contains name_lower ''component''
        then language @ '' UI component''
      else if name_lower \<in> set [''__init__'', ''index'', ''mod'']
        then (if ''tests'' \<in> set path_parts \<or> ''test'' \<in> set path_parts
              then language @ '' test module initialization''
              else language @ '' module initialization'')
      else
        (let top_dir = (if path_parts \<noteq> [] then lower (hd path_parts) else []) in
         if path_parts \<noteq> [] \<and> top_dir \<in> set [''tests'', ''test'']
           then language @ '' test implementation''
         else if path_parts \<noteq> [] \<and> top_dir \<in> set [''src'', ''lib'', ''core'']
           then language @ '' core implementation''
         else if path_parts \<noteq> [] \<and> top_dir \<in> set [''scripts'', ''bin'']
           then language @ '' utility script''
         else if path_parts \<noteq> [] \<and> top_dir \<in> set [''docs'', ''documentation'']
           then language @ '' documentation file''
         else if path_parts \<noteq> [] \<and> top_dir \<in> set [''examples'', ''demos'', ''samples'']
           then language @ '' example code''
         else
           (let words = replace_char CHR ''-'' CHR '' '' (replace_char CHR ''_'' CHR '' '' name) in
            if language \<noteq> ''Unknown'' then language @ '' module for '' @ words
            else ''Source file for '' @ words)))"

text \<open>\<open>_generate_heuristic_summary(file_path, root_path)\<close>.\<close>

definition generate_heuristic_summary :: "path \<Rightarrow> path \<Rightarrow> string" where
  "generate_heuristic_summary file_path root_path =
     summary_rules (path_stem file_path) (lower (path_suffix file_path))
       (get_language file_path) (path_parts_of file_path root_path)"

section \<open>The file system under the root\<close>

text \<open>
  What \<open>os.walk\<close> and \<open>is_symlink\<close> can see of the tree: an entry is either something
  \<open>DirEntry.is_dir()\<close> reports as a directory (a directory, or a symbolic link to one:
  \<open>is_dir\<close> follows links), with the entries found inside it, or anything else (a regular
  file, a symbolic link to a file, a dangling link). The flag says whether the entry
  itself is a symbolic link, which is what \<open>Path.is_symlink()\<close> returns for its path.
  Every entry of the tree can be listed and examined: a directory that cannot be read
  for want of permission is not modelled.
\<close>

datatype node = File bool | Dir bool "(string \<times> node) list"

fun is_symlink :: "node \<Rightarrow> bool" where
  "is_symlink (File l) = l"
| "is_symlink (Dir l entries) = l"

fun is_dir :: "node \<Rightarrow> bool" where
  "is_dir (File l) = False"
| "is_dir (Dir l entries) = True"

section \<open>The scanner\<close>

text \<open>
  The tests of the inner loop of \<open>scan_files\<close> on one file name, each \<open>continue\<close> of the
  source being a \<open>False\<close>.
\<close>

definition keep_file :: "string list \<Rightarrow> string list \<Rightarrow> string \<times> node \<Rightarrow> bool" where
  "keep_file include_patterns exclude_patterns entry =
     (case entry of (filename, n) \<Rightarrow>
        if is_symlink n then False
        else if include_patterns \<noteq> [] \<and> \<not> matches_pattern filename include_patterns then False
        else if exclude_patterns \<noteq> [] \<and> matches_pattern filename exclude_patterns then False
        else True)"

text \<open>
  The loop \<open>for dirpath, dirnames, filenames in os.walk(root_path, followlinks=False)\<close>
  with its body, started at \<open>dirpath\<close> where the file system holds the given node; the
  result is the list of the paths appended to \<open>matching_files\<close>, in the order of the
  appends. \<open>os.walk\<close> lists the directory (a failing \<open>scandir\<close>, as on a path that is not
  a directory, yields nothing: \<open>onerror\<close> is \<open>None\<close>), hands the names to the body, which
  prunes \<open>dirnames\<close> in place, and then descends into the remaining directories that are
  not symbolic links, in their order.
\<close>

fun os_walk :: "string list \<Rightarrow> string list \<Rightarrow> string set \<Rightarrow> path \<Rightarrow> node \<Rightarrow> path list" where
  "os_walk inc exc exd dirpath (File l) = []"
| "os_walk inc exc exd dirpath (Dir l entries) =
     (let dirnames = filter (\<lambda>e. is_dir (snd e)) entries;
          filenames = filter (\<lambda>e. \<not> is_dir (snd e)) entries;
          dirnames1 = filter (\<lambda>d. fst d \<notin> exd) dirnames;
          dirnames2 = filter (\<lambda>d. \<not> is_symlink (snd d)) dirnames1;
          matching = map (\<lambda>f. dirpath @ [fst f])
                       (filter (keep_file inc exc) (sort_key fst filenames))
      in matching @
         concat (map (\<lambda>d. if is_symlink (snd d) then []
                           else os_walk inc exc exd (dirpath @ [fst d]) (snd d)) dirnames2))"

text \<open>
  \<open>scan_files(root_path, include_patterns, exclude_patterns, exclude_dirs)\<close>. The first
  argument is what the file system holds at \<open>root_path\<close>: nothing, or a node. The result
  is \<open>sorted(matching_files)\<close>: a list of \<open>Path\<close> objects, which Python orders by their
  parts.
\<close>

definition scan_files ::
  "node option \<Rightarrow> path \<Rightarrow> string list option \<Rightarrow> string list option \<Rightarrow>
     string set option \<Rightarrow> path list" where
  "scan_files fs root_path include_patterns exclude_patterns exclude_dirs =
     (let inc = (case include_patterns of None \<Rightarrow> [] | Some ps \<Rightarrow> ps);
          exc = (case exclude_patterns of None \<Rightarrow> [] | Some ps \<Rightarrow> ps);
          exd = (case exclude_dirs of None \<Rightarrow> {} | Some ds \<Rightarrow> ds);
          matching_files =
            (case fs of None \<Rightarrow> [] | Some n \<Rightarrow> os_walk inc exc exd root_path n)
      in sort matching_files)"

section \<open>The report\<close>

text \<open>One dictionary of the list \<open>summaries\<close>, and the dictionary \<open>json_data\<close>.\<close>

record summary_entry =
  s_path :: string
  s_language :: string
  s_summary :: string

record json_data =
  total_files :: nat
  files :: "summary_entry list"

text \<open>
  The output side of the file system. What a file holds is the text written to it, or
  the value handed to \<open>json.dump\<close>, or, after a write that did not finish, an initial
  part of the output (\<open>Incomplete\<close>; a file emptied by \<open>open\<close> and never written to
  holds the empty text). A path can be opened for writing (it holds nothing yet, or an
  earlier content, which opening discards), or \<open>open\<close> raises there.
\<close>

datatype file_content = Text string | JsonDoc json_data | Incomplete

text \<open>The exceptions that \<open>open\<close> and the writes raise.\<close>

datatype io_exception =
  FileNotFoundError | NotADirectoryError | IsADirectoryError | PermissionError
  | OSError | UnicodeEncodeError

datatype slot = Writable "file_content option" | Refuses io_exception

text \<open>
  The state the report acts on: the files; the error, if any, with which the device
  stops a write to a file that has been opened (no space left, an input/output error);
  the trace of the paths opened for writing; and the lines printed.
\<close>

record world =
  disk :: "path \<Rightarrow> slot"
  write_faults :: "path \<Rightarrow> io_exception option"
  writes :: "path list"
  stdout :: "string list"

text \<open>\<open>print(line)\<close>: standard output takes every line.\<close>

definition print :: "string \<Rightarrow> world \<Rightarrow> world" where
  "print line w = w\<lparr>stdout := stdout w @ [line]\<rparr>"

text \<open>
  What is written can be encoded: the text, when it is encodable; the output of
  \<open>json.dump\<close> always, since it escapes every character outside ASCII.
\<close>

definition encodable :: "file_content \<Rightarrow> bool" where
  "encodable c = (case c of Text s \<Rightarrow> utf8_encodable s | JsonDoc d \<Rightarrow> True | Incomplete \<Rightarrow> True)"

text \<open>
  \<open>with open(p, 'w', encoding='utf-8') as f:\<close> followed by the write of the content.
  When \<open>open\<close> raises, the file is untouched. Otherwise the file is emptied, and then
  the write raises \<open>UnicodeEncodeError\<close> before any output (the file stays empty), or the
  device stops it (the file is left incomplete), or the whole content is written.
\<close>

definition write_file ::
  "path \<Rightarrow> file_content \<Rightarrow> world \<Rightarrow> (io_exception + unit) \<times> world" where
  "write_file p c w =
     (case disk w p of
        Refuses e \<Rightarrow> (Inl e, w)
      | Writable old \<Rightarrow>
          (let opened = w\<lparr>disk := (disk w)(p := Writable (Some (Text []))),
                            writes := writes w @ [p]\<rparr>
           in if \<not> encodable c then (Inl UnicodeEncodeError, opened)
              else
                (case write_faults w p of
                   Some e \<Rightarrow>
                     (Inl e, opened\<lparr>disk := (disk w)(p := Writable (Some Incomplete))\<rparr>)
                 | None \<Rightarrow>
                     (Inr (), opened\<lparr>disk := (disk w)(p := Writable (Some c))\<rparr>))))"

datatype error = FileSummaryError io_exception

text \<open>The body of the loop that fills \<open>summaries\<close>.\<close>

definition summary_of :: "path \<Rightarrow> path \<Rightarrow> summary_entry" where
  "summary_of root_path file_path =
     (let rel_path = (case relative_to file_path root_path of
                        Inr rel \<Rightarrow> rel
                      | Inl ValueError \<Rightarrow> file_path)
      in \<lparr>s_path = path_str rel_path,
          s_language = get_language file_path,
          s_summary = generate_heuristic_summary file_path root_path\<rparr>)"

definition newline :: string where
  "newline = [CHR 0x0A]"

definition markdown_of :: "summary_entry list \<Rightarrow> string" where
  "markdown_of summaries =
     (let markdown_lines =
            [''# File Summaries'' @ newline,
             ''Heuristic summaries of source files based on filenames, extensions, and paths.''
               @ newline,
             ''Total files: '' @ str_nat (length summaries) @ newline]
            @ concat (map (\<lambda>entry.
                [''## '' @ s_path entry,
                 ''**Language:** '' @ s_language entry @ ''  '',
                 ''**Summary:** '' @ s_summary entry @ newline]) summaries)
      in join newline markdown_lines)"

text \<open>
  \<open>generate_file_summaries(root_path, output_dir, include_patterns, exclude_dirs, dry_run)\<close>,
  run where the file system holds \<open>fs\<close> at \<open>root_path\<close>, from the state \<open>w\<close>. The result is
  \<open>Inr ()\<close> for a normal return and \<open>Inl\<close> of the \<open>FileSummaryError\<close> raised by the
  \<open>except\<close> clause, with the state left behind.
\<close>

definition generate_file_summaries ::
  "node option \<Rightarrow> path \<Rightarrow> path \<Rightarrow> string list option \<Rightarrow> string set option \<Rightarrow> bool \<Rightarrow>
     world \<Rightarrow> (error + unit) \<times> world" where
  "generate_file_summaries fs root_path output_dir include_patterns exclude_dirs dry_run w =
     (let scanned = scan_files fs root_path include_patterns None exclude_dirs in
      if scanned = [] then
        (if dry_run then (Inr (), print ''[DRY RUN] No files found matching criteria'' w)
         else (Inr (), print ''No files found matching criteria'' w))
      else
        (let summaries = map (summary_of root_path) scanned;
             markdown_content = markdown_of summaries;
             markdown_path = output_dir @ [''file-summaries.md''];
             (r1, w1) =
               (if dry_run then
                  (Inr (),
                   print (''[DRY RUN] Total files: '' @ str_nat (length summaries))
                    (print (''[DRY RUN] Content length: '' @ str_nat (length markdown_content)
                              @ '' bytes'')
                      (print (''[DRY RUN] Would write file-summaries.md to: ''
                                @ path_str markdown_path) w)))
                else
                  (case write_file markdown_path (Text markdown_content) w of
                     (Inl e, w') \<Rightarrow> (Inl e, w')
                   | (Inr u, w') \<Rightarrow>
                       (Inr (), print (''File summaries written: '' @ path_str markdown_path) w')))
         in case r1 of
              Inl e \<Rightarrow> (Inl (FileSummaryError e), w1)
            | Inr u \<Rightarrow>
                (let data = \<lparr>total_files = length summaries, files = summaries\<rparr>;
                     json_path = output_dir @ [''file-summaries.json''];
                     (r2, w2) =
                       (if dry_run then
                          (Inr (),
                           print (''[DRY RUN] JSON entries: '' @ str_nat (length summaries))
                            (print (''[DRY RUN] Would write file-summaries.json to: ''
                                      @ path_str json_path) w1))
                        else
                          (case write_file json_path (JsonDoc data) w1 of
                             (Inl e, w') \<Rightarrow> (Inl e, w')
                           | (Inr u, w') \<Rightarrow>
                               (Inr (),
                                print (''File summaries JSON written: '' @ path_str json_path) w')))
                 in case r2 of
                      Inl e \<Rightarrow> (Inl (FileSummaryError e), w2)
                    | Inr u \<Rightarrow> (Inr (), w2))))"

section \<open>Trees, paths into them, and listing order\<close>

text \<open>
  The notions the properties of the scanner are stated with. In a directory of a file
  system no two entries have the same name.
\<close>

fun wf_node :: "node \<Rightarrow> bool" where
  "wf_node (File l) = True"
| "wf_node (Dir l entries) =
     (distinct (map fst entries) \<and> (\<forall>e \<in> set entries. wf_node (snd e)))"

text \<open>The node a relative path leads to, from a given node.\<close>

fun lookup :: "node \<Rightarrow> path \<Rightarrow> node option" where
  "lookup n [] = Some n"
| "lookup n (x # xs) =
     (case n of
        File l \<Rightarrow> None
      | Dir l entries \<Rightarrow>
          (case map_of entries x of None \<Rightarrow> None | Some c \<Rightarrow> lookup c xs))"

text \<open>
  Some component of the relative path, resolved from the given node, is a symbolic link:
  the file itself, or one of the directories above it.
\<close>

fun symlink_on_path :: "node \<Rightarrow> path \<Rightarrow> bool" where
  "symlink_on_path n [] = False"
| "symlink_on_path n (x # xs) =
     (case n of
        File l \<Rightarrow> False
      | Dir l entries \<Rightarrow>
          (case map_of entries x of
             None \<Rightarrow> False
           | Some c \<Rightarrow> is_symlink c \<or> symlink_on_path c xs))"

text \<open>
  Two trees with the same contents, whose directories list their entries in different
  orders: the enumeration order of \<open>scandir\<close> is not specified.
\<close>

inductive same_tree :: "node \<Rightarrow> node \<Rightarrow> bool" where
  same: "same_tree t t"
| listing: "mset entries' = mset entries \<Longrightarrow> same_tree (Dir l entries) (Dir l entries')"
| inside: "same_tree c c' \<Longrightarrow>
     same_tree (Dir l (xs @ (name, c) # ys)) (Dir l (xs @ (name, c') # ys))"
| step: "same_tree t t' \<Longrightarrow> same_tree t' t'' \<Longrightarrow> same_tree t t''"

code_pred same_tree .

text \<open>What one entry of a directory adds to the paths collected by the walk.\<close>

definition contrib ::
  "string list \<Rightarrow> string list \<Rightarrow> string set \<Rightarrow> path \<Rightarrow> string \<times> node \<Rightarrow> path multiset" where
  "contrib inc exc exd dirpath e =
     (if is_dir (snd e) then
        (if fst e \<notin> exd \<and> \<not> is_symlink (snd e)
         then mset (os_walk inc exc exd (dirpath @ [fst e]) (snd e)) else {#})
      else (if keep_file inc exc e then {#dirpath @ [fst e]#} else {#}))"

section \<open>Example inputs\<close>

text \<open>
  A repository with a module \<open>a.py\<close> beside a package directory \<open>a\<close>, a symbolic link to
  a file, and a symbolic link to a directory; and the same tree listed in another order.
\<close>

definition example_tree :: node where
  "example_tree =
     Dir False
       [(''a.py'', File False),
        (''a'', Dir False [(''z.py'', File False)]),
        (''link.py'', File True),
        (''vendor'', Dir True [(''v.py'', File False)])]"

definition example_tree_relisted :: node where
  "example_tree_relisted =
     Dir False
       [(''vendor'', Dir True [(''v.py'', File False)]),
        (''a'', Dir False [(''z.py'', File False)]),
        (''link.py'', File True),
        (''a.py'', File False)]"

text \<open>
  An output directory where both reports can be written, and one where a directory
  stands at the place of the data document, so that opening it for writing is refused.
\<close>

definition example_world :: world where
  "example_world =
     \<lparr>disk = (\<lambda>p. Writable None), write_faults = (\<lambda>p. None), writes = [], stdout = []\<rparr>"

definition example_world_json_refused :: world where
  "example_world_json_refused =
     \<lparr>disk = (\<lambda>p. if p = [''out'', ''file-summaries.json''] then Refuses IsADirectoryError
                   else Writable None),
      write_faults = (\<lambda>p. None), writes = [], stdout = []\<rparr>"

text \<open>
  An output directory that holds an earlier text document, and a repository with one file
  whose name is not well-formed UTF-8 (the single byte \<open>0xFF\<close> before \<open>.py\<close>).
\<close>

definition example_world_old_report :: world where
  "example_world_old_report =
     \<lparr>disk = (\<lambda>p. if p = [''out'', ''file-summaries.md''] then Writable (Some (Text ''old''))
                   else Writable None),
      write_faults = (\<lambda>p. None), writes = [], stdout = []\<rparr>"

definition example_tree_bad_name :: node where
  "example_tree_bad_name = Dir False [(CHR 0xFF # ''.py'', File False)]"

text \<open>A root that is itself a symbolic link to a directory holding one file.\<close>

definition example_linked_root :: node where
  "example_linked_root = Dir True [(''v.py'', File False)]"

section \<open>Properties\<close>

lemma startswith_prefix: "startswith s p \<longleftrightarrow> prefix p s"
  unfolding startswith_def
proof
  assume "take (length p) s = p"
  then have "s = p @ drop (length p) s"
    by (metis append_take_drop_id)
  then show "prefix p s"
    by (metis prefixI)
next
  assume "prefix p s"
  then show "take (length p) s = p"
    by (auto simp: prefix_def)
qed

lemma endswith_suffix: "endswith s p \<longleftrightarrow> suffix p s"
  unfolding endswith_def
proof
  assume a: "length p \<le> length s \<and> drop (length s - length p) s = p"
  then have "s = take (length s - length p) s @ p"
    by (metis append_take_drop_id)
  then show "suffix p s"
    by (metis suffixI)
next
  assume "suffix p s"
  then show "length p \<le> length s \<and> drop (length s - length p) s = p"
    by (auto simp: suffix_def)
qed

lemma startswith_star: "startswith p ''*'' \<longleftrightarrow> p \<noteq> [] \<and> hd p = CHR ''*''"
  by (cases p) (auto simp: startswith_def)

lemma endswith_star: "endswith p ''*'' \<longleftrightarrow> p \<noteq> [] \<and> last p = CHR ''*''"
proof (cases p rule: rev_cases)
  case Nil
  then show ?thesis by (simp add: endswith_def)
next
  case (snoc ys y)
  then show ?thesis by (auto simp: endswith_def)
qed

lemma drop_1_tl: "drop 1 p = tl p"
  by (cases p) auto

text \<open>
  C6. A file name matches a pattern list exactly when some pattern of the list matches
  it in the specification's sense: suffix match for a leading star, prefix match for a
  trailing star, equality otherwise.
\<close>

theorem matches_pattern_iff_spec:
  "matches_pattern filename patterns \<longleftrightarrow>
     (\<exists>pattern \<in> set patterns. spec_pattern_matches pattern filename)"
proof (induction patterns)
  case Nil
  show ?case by simp
next
  case (Cons p ps)
  have one: "(if startswith p ''*'' then endswith filename (drop 1 p)
              else if endswith p ''*'' then startswith filename (butlast p)
              else filename = p) = spec_pattern_matches p filename"
    unfolding spec_pattern_matches_def startswith_star endswith_star drop_1_tl
    by (simp add: endswith_suffix startswith_prefix)
  have "matches_pattern filename (p # ps) \<longleftrightarrow>
          (if startswith p ''*'' then endswith filename (drop 1 p)
           else if endswith p ''*'' then startswith filename (butlast p)
           else filename = p) \<or> matches_pattern filename ps"
    by simp
  with one Cons.IH show ?case by simp
qed

subsection \<open>The heuristic summary\<close>

lemma lower_api_test: "lower ''api_test'' = ''api_test''"
  by (simp add: lower_def lower_char_def)

lemma if_nonempty: "a \<noteq> [] \<Longrightarrow> b \<noteq> [] \<Longrightarrow> (if c then a else b) \<noteq> []"
  by simp

lemma summary_rules_nonempty: "summary_rules n e l pp \<noteq> []"
  unfolding summary_rules_def Let_def
  by (intro if_nonempty) simp_all

lemma summary_rules_label:
  "prefix l (summary_rules n e l pp) \<or>
   (l = ''Unknown'' \<and> summary_rules n e l pp =
      ''Source file for '' @ replace_char CHR ''-'' CHR '' '' (replace_char CHR ''_'' CHR '' '' n))"
  by (simp add: summary_rules_def Let_def)

lemma path_parts_of_parent: "path_parts_of fp (path_parent fp) = []"
proof (cases fp rule: rev_cases)
  case Nil
  then show ?thesis
    by (simp add: path_parts_of_def relative_to_def path_parent_def is_absolute_def)
next
  case (snoc ys y)
  show ?thesis
  proof (cases "ys = []")
    case True
    with snoc show ?thesis
      by (simp add: path_parts_of_def relative_to_def path_parent_def is_absolute_def)
  next
    case False
    with snoc show ?thesis
      by (simp add: path_parts_of_def relative_to_def path_parent_def is_absolute_def)
  qed
qed

text \<open>
  C4. A file whose stem is \<open>api_test\<close> gets the test-file summary, whatever its extension
  and directory: the test-name rule stands before the rule for the substring \<open>api\<close>.
\<close>

theorem api_test_is_test_file:
  assumes "path_stem file_path = ''api_test''"
  shows "generate_heuristic_summary file_path root_path = get_language file_path @ '' test file''"
  using assms
  by (simp add: generate_heuristic_summary_def summary_rules_def Let_def lower_api_test
      startswith_def endswith_def)

theorem api_test_is_test_file_witness:
  "path_stem [''repo'', ''api_test.py''] = ''api_test'' \<and>
   generate_heuristic_summary [''repo'', ''api_test.py''] [''repo''] = ''Python test file''"
proof -
  have stem: "path_stem [''repo'', ''api_test.py''] = ''api_test''"
    by code_simp
  have lang: "get_language [''repo'', ''api_test.py''] = ''Python''"
    by code_simp
  from api_test_is_test_file [OF stem, of "[''repo'']"] lang stem show ?thesis
    by simp
qed

text \<open>
  C5. The summary is a total function of the file path and the root: the only operation
  of the body that can raise is \<open>relative_to\<close>, and when it does the relative directory
  parts are empty, so that the file is summarised as if it stood directly in its root.
  The result is never the empty string, and it begins with the detected language label
  unless the language is \<open>Unknown\<close> and the default rule produced the result.
\<close>

theorem generate_heuristic_summary_total:
  "generate_heuristic_summary file_path root_path \<noteq> [] \<and>
   (prefix (get_language file_path) (generate_heuristic_summary file_path root_path) \<or>
    (get_language file_path = ''Unknown'' \<and>
     generate_heuristic_summary file_path root_path =
       ''Source file for '' @
         replace_char CHR ''-'' CHR '' '' (replace_char CHR ''_'' CHR '' '' (path_stem file_path)))) \<and>
   (relative_to file_path root_path = Inl ValueError \<longrightarrow>
      path_parts_of file_path root_path = [] \<and>
      generate_heuristic_summary file_path root_path =
        generate_heuristic_summary file_path (path_parent file_path))"
proof (intro conjI impI)
  show "generate_heuristic_summary file_path root_path \<noteq> []"
    by (simp add: generate_heuristic_summary_def summary_rules_nonempty)
next
  show "prefix (get_language file_path) (generate_heuristic_summary file_path root_path) \<or>
    (get_language file_path = ''Unknown'' \<and>
     generate_heuristic_summary file_path root_path =
       ''Source file for '' @
         replace_char CHR ''-'' CHR '' '' (replace_char CHR ''_'' CHR '' '' (path_stem file_path)))"
    unfolding generate_heuristic_summary_def by (rule summary_rules_label)
next
  assume "relative_to file_path root_path = Inl ValueError"
  then show "path_parts_of file_path root_path = []"
    by (simp add: path_parts_of_def)
  then show "generate_heuristic_summary file_path root_path =
      generate_heuristic_summary file_path (path_parent file_path)"
    by (simp add: generate_heuristic_summary_def path_parts_of_parent)
qed

theorem generate_heuristic_summary_total_witness:
  "relative_to [''/'', ''other'', ''tests'', ''notes.txt''] [''/'', ''repo''] = Inl ValueError \<and>
   path_parts_of [''/'', ''other'', ''tests'', ''notes.txt''] [''/'', ''repo''] = [] \<and>
   generate_heuristic_summary [''/'', ''other'', ''tests'', ''notes.txt''] [''/'', ''repo''] =
     generate_heuristic_summary [''/'', ''other'', ''tests'', ''notes.txt'']
       (path_parent [''/'', ''other'', ''tests'', ''notes.txt'']) \<and>
   generate_heuristic_summary [''/'', ''other'', ''tests'', ''notes.txt''] [''/'', ''repo''] =
     ''Source file for notes''"
proof -
  have raises: "relative_to [''/'', ''other'', ''tests'', ''notes.txt''] [''/'', ''repo''] = Inl ValueError"
    by code_simp
  have val: "generate_heuristic_summary [''/'', ''other'', ''tests'', ''notes.txt''] [''/'', ''repo''] =
      ''Source file for notes''"
    by code_simp
  from generate_heuristic_summary_total
    [of "[''/'', ''other'', ''tests'', ''notes.txt'']" "[''/'', ''repo'']"] raises val
  show ?thesis by simp
qed

text \<open>
  C10. A file whose stem lower-cases to \<open>index\<close> gets the entry-point summary for every
  root and directory, so the \<open>index\<close> case of the later module-initialisation rule, with
  its two phrasings, is never the result for such a file.
\<close>

theorem index_is_entry_point:
  assumes "lower (path_stem file_path) = ''index''"
  shows "generate_heuristic_summary file_path root_path =
           get_language file_path @ '' main entry point'' \<and>
         generate_heuristic_summary file_path root_path \<noteq>
           get_language file_path @ '' module initialization'' \<and>
         generate_heuristic_summary file_path root_path \<noteq>
           get_language file_path @ '' test module initialization''"
proof -
  have "generate_heuristic_summary file_path root_path =
          get_language file_path @ '' main entry point''"
    using assms
    by (simp add: generate_heuristic_summary_def summary_rules_def Let_def
        startswith_def endswith_def)
  then show ?thesis by simp
qed

theorem index_is_entry_point_witness:
  "lower (path_stem [''repo'', ''tests'', ''Index.js'']) = ''index'' \<and>
   ''tests'' \<in> set (path_parts_of [''repo'', ''tests'', ''Index.js''] [''repo'']) \<and>
   generate_heuristic_summary [''repo'', ''tests'', ''Index.js''] [''repo''] =
     ''JavaScript main entry point''"
proof -
  have stem: "lower (path_stem [''repo'', ''tests'', ''Index.js'']) = ''index''"
    by code_simp
  have lang: "get_language [''repo'', ''tests'', ''Index.js''] = ''JavaScript''"
    by code_simp
  have parts: "path_parts_of [''repo'', ''tests'', ''Index.js''] [''repo''] = [''tests'']"
    by code_simp
  from index_is_entry_point [OF stem, of "[''repo'']"] lang stem parts show ?thesis
    by simp
qed

subsection \<open>The scanner\<close>

lemma os_walk_Dir:
  "os_walk inc exc exd dirpath (Dir l entries) =
     map (\<lambda>f. dirpath @ [fst f])
       (filter (keep_file inc exc) (sort_key fst (filter (\<lambda>e. \<not> is_dir (snd e)) entries))) @
     concat (map (\<lambda>d. os_walk inc exc exd (dirpath @ [fst d]) (snd d))
       (filter (\<lambda>d. is_dir (snd d) \<and> fst d \<notin> exd \<and> \<not> is_symlink (snd d)) entries))"
proof -
  have h: "map (\<lambda>d. if is_symlink (snd d) then [] else os_walk inc exc exd (dirpath @ [fst d]) (snd d))
          (filter (\<lambda>d. is_dir (snd d) \<and> fst d \<notin> exd \<and> \<not> is_symlink (snd d)) entries) =
        map (\<lambda>d. os_walk inc exc exd (dirpath @ [fst d]) (snd d))
          (filter (\<lambda>d. is_dir (snd d) \<and> fst d \<notin> exd \<and> \<not> is_symlink (snd d)) entries)"
    by (rule map_cong) auto
  show ?thesis
    by (simp add: Let_def h)
qed

lemma os_walk_member_Dir:
  "p \<in> set (os_walk inc exc exd dirpath (Dir l entries)) \<longleftrightarrow>
     (\<exists>e \<in> set entries.
        (\<not> is_dir (snd e) \<and> keep_file inc exc e \<and> p = dirpath @ [fst e]) \<or>
        (is_dir (snd e) \<and> fst e \<notin> exd \<and> \<not> is_symlink (snd e) \<and>
         p \<in> set (os_walk inc exc exd (dirpath @ [fst e]) (snd e))))"
  unfolding os_walk_Dir by (simp add: image_iff Bex_def) blast

lemma keep_file_not_link: "keep_file inc exc e \<Longrightarrow> \<not> is_symlink (snd e)"
  by (cases e) (simp add: keep_file_def split: if_splits)

lemma not_dir_File: "\<not> is_dir n \<Longrightarrow> n = File (is_symlink n)"
  by (cases n) auto

lemma map_of_entry: "distinct (map fst entries) \<Longrightarrow> e \<in> set entries \<Longrightarrow> map_of entries (fst e) = Some (snd e)"
  by (cases e) simp

lemma os_walk_member:
  "wf_node t \<Longrightarrow> p \<in> set (os_walk inc exc exd dirpath t) \<Longrightarrow>
     \<exists>rel. rel \<noteq> [] \<and> p = dirpath @ rel \<and> lookup t rel = Some (File False) \<and>
           \<not> symlink_on_path t rel"
proof (induction t arbitrary: dirpath p)
  case (File l)
  then show ?case by simp
next
  case (Dir l entries)
  from Dir.prems(1) have dist: "distinct (map fst entries)"
    and wf: "\<And>e. e \<in> set entries \<Longrightarrow> wf_node (snd e)"
    by auto
  from Dir.prems(2) obtain e where e: "e \<in> set entries"
    and alt: "(\<not> is_dir (snd e) \<and> keep_file inc exc e \<and> p = dirpath @ [fst e]) \<or>
        (is_dir (snd e) \<and> fst e \<notin> exd \<and> \<not> is_symlink (snd e) \<and>
         p \<in> set (os_walk inc exc exd (dirpath @ [fst e]) (snd e)))"
    unfolding os_walk_member_Dir by blast
  have look: "map_of entries (fst e) = Some (snd e)"
    using dist e by (rule map_of_entry)
  from alt show ?case
  proof
    assume a: "\<not> is_dir (snd e) \<and> keep_file inc exc e \<and> p = dirpath @ [fst e]"
    then have "snd e = File False"
      using keep_file_not_link [of inc exc e] not_dir_File [of "snd e"] by simp
    with a look have "[fst e] \<noteq> [] \<and> p = dirpath @ [fst e] \<and>
        lookup (Dir l entries) [fst e] = Some (File False) \<and>
        \<not> symlink_on_path (Dir l entries) [fst e]"
      by simp
    then show ?thesis by blast
  next
    assume a: "is_dir (snd e) \<and> fst e \<notin> exd \<and> \<not> is_symlink (snd e) \<and>
         p \<in> set (os_walk inc exc exd (dirpath @ [fst e]) (snd e))"
    have "snd e \<in> Basic_BNFs.snds e"
      by (cases e) simp
    from Dir.IH [OF e this wf [OF e]] a
    obtain rel where rel: "rel \<noteq> []" "p = (dirpath @ [fst e]) @ rel"
      "lookup (snd e) rel = Some (File False)" "\<not> symlink_on_path (snd e) rel"
      by blast
    with a look have "fst e # rel \<noteq> [] \<and> p = dirpath @ (fst e # rel) \<and>
        lookup (Dir l entries) (fst e # rel) = Some (File False) \<and>
        \<not> symlink_on_path (Dir l entries) (fst e # rel)"
      by simp
    then show ?thesis by blast
  qed
qed


lemma os_walk_shape:
  "p \<in> set (os_walk inc exc exd dirpath t) \<Longrightarrow> \<exists>rel. rel \<noteq> [] \<and> p = dirpath @ rel"
proof (induction t arbitrary: dirpath p)
  case (File l)
  then show ?case by simp
next
  case (Dir l entries)
  from Dir.prems obtain e where e: "e \<in> set entries"
    and alt: "(\<not> is_dir (snd e) \<and> keep_file inc exc e \<and> p = dirpath @ [fst e]) \<or>
        (is_dir (snd e) \<and> fst e \<notin> exd \<and> \<not> is_symlink (snd e) \<and>
         p \<in> set (os_walk inc exc exd (dirpath @ [fst e]) (snd e)))"
    unfolding os_walk_member_Dir by blast
  from alt show ?case
  proof
    assume "\<not> is_dir (snd e) \<and> keep_file inc exc e \<and> p = dirpath @ [fst e]"
    then have "[fst e] \<noteq> [] \<and> p = dirpath @ [fst e]" by simp
    then show ?thesis by blast
  next
    assume a: "is_dir (snd e) \<and> fst e \<notin> exd \<and> \<not> is_symlink (snd e) \<and>
         p \<in> set (os_walk inc exc exd (dirpath @ [fst e]) (snd e))"
    have "snd e \<in> Basic_BNFs.snds e"
      by (cases e) simp
    from Dir.IH [OF e this] a obtain rel where "p = (dirpath @ [fst e]) @ rel"
      by blast
    then have "fst e # rel \<noteq> [] \<and> p = dirpath @ (fst e # rel)" by simp
    then show ?thesis by blast
  qed
qed

lemma os_walk_child_tag:
  "p \<in> set (os_walk inc exc exd (dirpath @ [name]) t) \<Longrightarrow> p ! length dirpath = name \<and> length dirpath + 1 < length p"
proof -
  assume "p \<in> set (os_walk inc exc exd (dirpath @ [name]) t)"
  then obtain rel where "rel \<noteq> []" "p = (dirpath @ [name]) @ rel"
    using os_walk_shape by blast
  then show ?thesis by (cases rel) (simp_all add: nth_append)
qed

lemma distinct_concat_tagged:
  assumes "distinct (map key xs)"
    and "\<And>x. x \<in> set xs \<Longrightarrow> distinct (g x)"
    and "\<And>x p. x \<in> set xs \<Longrightarrow> p \<in> set (g x) \<Longrightarrow> tag p = key x"
  shows "distinct (concat (map g xs))"
  using assms
proof (induction xs)
  case Nil
  show ?case by simp
next
  case (Cons x xs)
  have "set (g x) \<inter> set (concat (map g xs)) = {}"
  proof (rule ccontr)
    assume "set (g x) \<inter> set (concat (map g xs)) \<noteq> {}"
    then obtain p y where p: "p \<in> set (g x)" "y \<in> set xs" "p \<in> set (g y)"
      by auto
    then have "key x = key y"
      using Cons.prems(3) [of x p] Cons.prems(3) [of y p] by simp
    with p(2) Cons.prems(1) show False by auto
  qed
  moreover have "distinct (concat (map g xs))"
    using Cons by simp
  moreover have "distinct (g x)"
    using Cons.prems(2) by simp
  ultimately show ?case by simp
qed

lemma distinct_map_fst_sort_key:
  "distinct (map fst xs) \<Longrightarrow> distinct (map fst (sort_key f xs))"
proof -
  assume d: "distinct (map fst xs)"
  have "mset (map fst (sort_key f xs)) = mset (map fst xs)"
    by simp
  then have "distinct (map fst (sort_key f xs)) = distinct (map fst xs)"
    by (rule mset_eq_imp_distinct_iff)
  with d show ?thesis by simp
qed

lemma os_walk_distinct: "wf_node t \<Longrightarrow> distinct (os_walk inc exc exd dirpath t)"
proof (induction t arbitrary: dirpath)
  case (File l)
  show ?case by simp
next
  case (Dir l entries)
  from Dir.prems have dist: "distinct (map fst entries)"
    and wf: "\<And>e. e \<in> set entries \<Longrightarrow> wf_node (snd e)"
    by auto
  let ?fs = "filter (keep_file inc exc) (sort_key fst (filter (\<lambda>e. \<not> is_dir (snd e)) entries))"
  let ?ds = "filter (\<lambda>d. is_dir (snd d) \<and> fst d \<notin> exd \<and> \<not> is_symlink (snd d)) entries"
  let ?g = "\<lambda>d. os_walk inc exc exd (dirpath @ [fst d]) (snd d)"
  have "distinct (map fst (filter (\<lambda>e. \<not> is_dir (snd e)) entries))"
    using dist by (rule distinct_map_filter)
  then have "distinct (map fst (sort_key fst (filter (\<lambda>e. \<not> is_dir (snd e)) entries)))"
    by (rule distinct_map_fst_sort_key)
  then have "distinct (map fst ?fs)"
    by (rule distinct_map_filter)
  moreover have "inj_on (\<lambda>n. dirpath @ [n]) (set (map fst ?fs))"
    by (simp add: inj_on_def)
  ultimately have "distinct (map (\<lambda>n. dirpath @ [n]) (map fst ?fs))"
    using distinct_map by blast
  moreover have "map (\<lambda>n. dirpath @ [n]) (map fst ?fs) = map (\<lambda>f. dirpath @ [fst f]) ?fs"
    by (simp add: comp_def)
  ultimately have A: "distinct (map (\<lambda>f. dirpath @ [fst f]) ?fs)"
    by (simp only:)
  have B: "distinct (concat (map ?g ?ds))"
  proof (rule distinct_concat_tagged [where key = fst and tag = "\<lambda>p. p ! length dirpath"])
    show "distinct (map fst ?ds)"
      using dist by (simp add: distinct_map_filter)
  next
    fix x assume "x \<in> set ?ds"
    then have x: "x \<in> set entries" by simp
    have "snd x \<in> Basic_BNFs.snds x" by (cases x) simp
    from Dir.IH [OF x this wf [OF x]] show "distinct (?g x)" .
  next
    fix x p assume "x \<in> set ?ds" "p \<in> set (?g x)"
    then show "p ! length dirpath = fst x"
      using os_walk_child_tag by blast
  qed
  have C: "set (map (\<lambda>f. dirpath @ [fst f]) ?fs) \<inter> set (concat (map ?g ?ds)) = {}"
  proof (rule ccontr)
    assume "set (map (\<lambda>f. dirpath @ [fst f]) ?fs) \<inter> set (concat (map ?g ?ds)) \<noteq> {}"
    then obtain p where pa: "p \<in> set (map (\<lambda>f. dirpath @ [fst f]) ?fs)"
      and pb: "p \<in> set (concat (map ?g ?ds))"
      by blast
    from pa have "length p = length dirpath + 1"
      by auto
    moreover from pb obtain d where "p \<in> set (?g d)"
      by auto
    then have "length dirpath + 1 < length p"
      using os_walk_child_tag by blast
    ultimately show False by simp
  qed
  from A B C show ?case
    unfolding os_walk_Dir by simp
qed

lemma os_walk_mset:
  "mset (os_walk inc exc exd dirpath (Dir l entries)) =
     sum_mset (image_mset (contrib inc exc exd dirpath) (mset entries))"
proof -
  have "mset (map (\<lambda>f. dirpath @ [fst f])
          (filter (keep_file inc exc) (filter (\<lambda>e. \<not> is_dir (snd e)) es))) +
        mset (concat (map (\<lambda>d. os_walk inc exc exd (dirpath @ [fst d]) (snd d))
          (filter (\<lambda>d. is_dir (snd d) \<and> fst d \<notin> exd \<and> \<not> is_symlink (snd d)) es))) =
        sum_list (map (contrib inc exc exd dirpath) es)" for es
    by (induction es) (auto simp: contrib_def filter_filter_mset)
  from this [of entries] have "mset (os_walk inc exc exd dirpath (Dir l entries)) =
      sum_list (map (contrib inc exc exd dirpath) entries)"
    unfolding os_walk_Dir by (simp add: filter_filter_mset)
  also have "\<dots> = sum_mset (mset (map (contrib inc exc exd dirpath) entries))"
    by (simp only: sum_mset_sum_list)
  finally show ?thesis by simp
qed

lemma same_tree_kind:
  "same_tree t t' \<Longrightarrow> is_dir t = is_dir t' \<and> is_symlink t = is_symlink t'"
  by (induction rule: same_tree.induct) auto

lemma same_tree_walk:
  "same_tree t t' \<Longrightarrow>
     mset (os_walk inc exc exd dirpath t) = mset (os_walk inc exc exd dirpath t')"
proof (induction arbitrary: dirpath rule: same_tree.induct)
  case (same t)
  show ?case by simp
next
  case (listing entries' entries l)
  then show ?case by (simp only: os_walk_mset)
next
  case (inside c c' l xs name ys)
  from same_tree_kind [OF inside.hyps]
  have k1: "is_dir c' = is_dir c" and k2: "is_symlink c' = is_symlink c"
    by simp_all
  have k3: "keep_file inc exc (name, c') = keep_file inc exc (name, c)"
    by (simp add: keep_file_def k2)
  have ih: "mset (os_walk inc exc exd (dirpath @ [name]) c') =
      mset (os_walk inc exc exd (dirpath @ [name]) c)"
    using inside.IH [of "dirpath @ [name]"] by simp
  have "contrib inc exc exd dirpath (name, c') = contrib inc exc exd dirpath (name, c)"
    by (simp add: contrib_def k1 k2 k3 ih)
  then show ?case by (simp add: os_walk_mset del: os_walk.simps)
next
  case (step t t' t'')
  then show ?case by simp
qed

lemma sort_mset_eq: "mset xs = mset ys \<Longrightarrow> sort xs = sort ys"
  by (metis mset_sort properties_for_sort sorted_sort)

lemma example_same: "same_tree example_tree example_tree_relisted"
  unfolding example_tree_def example_tree_relisted_def
  by (rule same_tree.listing) simp

lemma example_wf: "wf_node example_tree"
  by (simp add: example_tree_def)

text \<open>
  C1, as stated, fails: for a root that does not exist the scan returns the empty list,
  and the report built on it returns normally.
\<close>

theorem scan_files_missing_root_returns_empty:
  "scan_files None [''missing''] None None None = [] \<and>
   fst (generate_file_summaries None [''missing''] [''out''] None None False example_world) =
     Inr ()"
  by code_simp

text \<open>
  C1, amended. For every root that does not exist or is not a directory, the scan raises
  nothing and returns the empty list, whatever the filters: the failed directory listing
  is dropped by the walk. The result is the one of an existing, empty root.
\<close>

theorem scan_files_missing_root:
  assumes "fs = None \<or> (\<exists>l. fs = Some (File l))"
  shows "scan_files fs root_path inc exc exd = [] \<and>
         scan_files fs root_path inc exc exd = scan_files (Some (Dir False [])) root_path inc exc exd"
  using assms by (auto simp: scan_files_def Let_def)

theorem scan_files_missing_root_witness:
  "scan_files None [''missing''] (Some [''*.py'']) None None = [] \<and>
   scan_files (Some (File False)) [''setup.py''] None None None = []"
proof -
  have a: "(None :: node option) = None \<or> (\<exists>l. (None :: node option) = Some (File l))"
    by simp
  have b: "Some (File False) = None \<or> (\<exists>l. Some (File False) = Some (File l))"
    by blast
  from scan_files_missing_root [OF a, of "[''missing'']" "Some [''*.py'']" None None]
    scan_files_missing_root [OF b, of "[''setup.py'']" None None None]
  show ?thesis by blast
qed

text \<open>
  C3, as stated, fails: with a module \<open>a.py\<close> beside a directory \<open>a\<close>, the returned list
  is not ascending in the full path strings, since \<open>.\<close> is smaller than \<open>/\<close>.
\<close>

theorem scan_files_not_sorted_by_string:
  "\<not> sorted (map path_str (scan_files (Some example_tree) [''repo''] None None None))"
  by code_simp

text \<open>
  C3, amended. The list returned by the scan is ascending in the order of paths, which
  is lexicographic over the sequence of path components, each compared as a string; it
  is strictly ascending when no directory lists a name twice; and two trees that differ
  only in the order in which their directories list their entries give the same list.
\<close>

theorem scan_files_sorted_by_parts:
  "sorted (scan_files fs root_path inc exc exd) \<and>
   ((\<forall>t. fs = Some t \<longrightarrow> wf_node t) \<longrightarrow>
      sorted_wrt (<) (scan_files fs root_path inc exc exd)) \<and>
   (same_tree t t' \<longrightarrow>
      scan_files (Some t) root_path inc exc exd = scan_files (Some t') root_path inc exc exd)"
proof (intro conjI impI)
  show "sorted (scan_files fs root_path inc exc exd)"
    by (simp add: scan_files_def Let_def)
next
  assume wf: "\<forall>t. fs = Some t \<longrightarrow> wf_node t"
  have "distinct (scan_files fs root_path inc exc exd)"
  proof (cases fs)
    case None
    then show ?thesis by (simp add: scan_files_def)
  next
    case (Some n)
    with wf have "wf_node n" by simp
    then show ?thesis
      using Some by (simp add: scan_files_def Let_def os_walk_distinct)
  qed
  moreover have "sorted (scan_files fs root_path inc exc exd)"
    by (simp add: scan_files_def Let_def)
  ultimately show "sorted_wrt (<) (scan_files fs root_path inc exc exd)"
    by (simp add: strict_sorted_iff)
next
  assume "same_tree t t'"
  then show "scan_files (Some t) root_path inc exc exd = scan_files (Some t') root_path inc exc exd"
    unfolding scan_files_def Let_def option.case
    by (intro sort_mset_eq same_tree_walk)
qed

theorem scan_files_sorted_by_parts_witness:
  "wf_node example_tree \<and> same_tree example_tree example_tree_relisted \<and>
   sorted_wrt (<) (scan_files (Some example_tree) [''repo''] None None None) \<and>
   scan_files (Some example_tree_relisted) [''repo''] None None None =
     [[''repo'', ''a'', ''z.py''], [''repo'', ''a.py'']]"
proof -
  have val: "scan_files (Some example_tree) [''repo''] None None None =
      [[''repo'', ''a'', ''z.py''], [''repo'', ''a.py'']]"
    by code_simp
  note inst = scan_files_sorted_by_parts
    [of "Some example_tree" "[''repo'']" None None None example_tree example_tree_relisted]
  from inst example_wf
  have strict: "sorted_wrt (<) (scan_files (Some example_tree) [''repo''] None None None)"
    by simp
  from inst example_same
  have "scan_files (Some example_tree_relisted) [''repo''] None None None =
      scan_files (Some example_tree) [''repo''] None None None"
    by simp
  with val have "scan_files (Some example_tree_relisted) [''repo''] None None None =
      [[''repo'', ''a'', ''z.py''], [''repo'', ''a.py'']]"
    by (simp only:)
  with example_wf example_same strict show ?thesis
    by blast
qed

text \<open>
  C7, as stated, fails at the root: a root that is itself a symbolic link to a directory
  is walked, and the files under it are returned.
\<close>

theorem scan_files_walks_linked_root:
  "is_symlink example_linked_root \<and>
   scan_files (Some example_linked_root) [''rootlink''] None None None =
     [[''rootlink'', ''v.py'']]"
  by code_simp

text \<open>
  C7, amended. Every path returned by the scan leads, from the root, to a file that is
  not a symbolic link, through directories none of which is a symbolic link: no symbolic
  link stands on the path below the root. Whether the root itself is a symbolic link
  plays no part.
\<close>

theorem scan_files_no_symlinks:
  assumes "wf_node t" and "p \<in> set (scan_files (Some t) root_path inc exc exd)"
  shows "\<exists>rel. p = root_path @ rel \<and> lookup t rel = Some (File False) \<and>
           \<not> symlink_on_path t rel"
proof -
  from assms(2) obtain i e x where "p \<in> set (os_walk i e x root_path t)"
    by (auto simp: scan_files_def Let_def)
  from os_walk_member [OF assms(1) this] show ?thesis by blast
qed

theorem scan_files_no_symlinks_witness:
  "wf_node example_tree \<and>
   [''repo'', ''a'', ''z.py''] \<in> set (scan_files (Some example_tree) [''repo''] None None None) \<and>
   (\<exists>rel. [''repo'', ''a'', ''z.py''] = [''repo''] @ rel \<and>
          lookup example_tree rel = Some (File False) \<and> \<not> symlink_on_path example_tree rel) \<and>
   symlink_on_path example_tree [''vendor'', ''v.py''] \<and>
   symlink_on_path example_tree [''link.py''] \<and>
   [''repo'', ''vendor'', ''v.py''] \<notin> set (scan_files (Some example_tree) [''repo''] None None None) \<and>
   [''repo'', ''link.py''] \<notin> set (scan_files (Some example_tree) [''repo''] None None None)"
proof -
  have val: "scan_files (Some example_tree) [''repo''] None None None =
      [[''repo'', ''a'', ''z.py''], [''repo'', ''a.py'']]"
    by code_simp
  then have mem: "[''repo'', ''a'', ''z.py''] \<in> set (scan_files (Some example_tree) [''repo''] None None None)"
    by simp
  have links: "symlink_on_path example_tree [''vendor'', ''v.py'']"
    "symlink_on_path example_tree [''link.py'']"
    by code_simp+
  from scan_files_no_symlinks [OF example_wf mem] links example_wf mem val
  show ?thesis by simp
qed

subsection \<open>The report\<close>

lemma keep_file_no_excludes: "keep_file inc exc e \<Longrightarrow> keep_file inc [] e"
  by (cases e) (simp add: keep_file_def split: if_splits)

lemma os_walk_excludes_subset:
  "p \<in> set (os_walk inc exc exd dirpath t) \<Longrightarrow> p \<in> set (os_walk inc [] exd dirpath t)"
proof (induction t arbitrary: dirpath)
  case (File l)
  then show ?case by simp
next
  case (Dir l entries)
  from Dir.prems obtain e where e: "e \<in> set entries"
    and alt: "(\<not> is_dir (snd e) \<and> keep_file inc exc e \<and> p = dirpath @ [fst e]) \<or>
        (is_dir (snd e) \<and> fst e \<notin> exd \<and> \<not> is_symlink (snd e) \<and>
         p \<in> set (os_walk inc exc exd (dirpath @ [fst e]) (snd e)))"
    unfolding os_walk_member_Dir by blast
  have "snd e \<in> Basic_BNFs.snds e"
    by (cases e) simp
  from Dir.IH [OF e this] alt keep_file_no_excludes [of inc exc e]
  have "(\<not> is_dir (snd e) \<and> keep_file inc [] e \<and> p = dirpath @ [fst e]) \<or>
        (is_dir (snd e) \<and> fst e \<notin> exd \<and> \<not> is_symlink (snd e) \<and>
         p \<in> set (os_walk inc [] exd (dirpath @ [fst e]) (snd e)))"
    by blast
  with e show ?case
    unfolding os_walk_member_Dir by blast
qed

lemma scan_files_excludes_subset:
  "set (scan_files fs root_path inc exc exd) \<subseteq> set (scan_files fs root_path inc None exd)"
  by (cases fs) (auto simp: scan_files_def Let_def dest: os_walk_excludes_subset split: option.splits)


lemma generate_real:
  "generate_file_summaries fs root_path output_dir inc exd False w =
     (let scanned = scan_files fs root_path inc None exd;
          summaries = map (summary_of root_path) scanned;
          content = markdown_of summaries;
          markdown_path = output_dir @ [''file-summaries.md''];
          json_path = output_dir @ [''file-summaries.json'']
      in
      if scanned = [] then (Inr (), print ''No files found matching criteria'' w)
      else
        (case disk w markdown_path of
           Refuses e \<Rightarrow> (Inl (FileSummaryError e), w)
         | Writable old \<Rightarrow>
             if \<not> utf8_encodable content then
               (Inl (FileSummaryError UnicodeEncodeError),
                w\<lparr>disk := (disk w)(markdown_path := Writable (Some (Text []))),
                  writes := writes w @ [markdown_path]\<rparr>)
             else
               (case write_faults w markdown_path of
                  Some e \<Rightarrow>
                    (Inl (FileSummaryError e),
                     w\<lparr>disk := (disk w)(markdown_path := Writable (Some Incomplete)),
                       writes := writes w @ [markdown_path]\<rparr>)
                | None \<Rightarrow>
                    (let w1 = w\<lparr>disk := (disk w)(markdown_path := Writable (Some (Text content))),
                                writes := writes w @ [markdown_path],
                                stdout := stdout w @
                                  [''File summaries written: '' @ path_str markdown_path]\<rparr>
                     in case disk w json_path of
                          Refuses e \<Rightarrow> (Inl (FileSummaryError e), w1)
                        | Writable old' \<Rightarrow>
                            (case write_faults w json_path of
                               Some e \<Rightarrow>
                                 (Inl (FileSummaryError e),
                                  w1\<lparr>disk := (disk w1)(json_path := Writable (Some Incomplete)),
                                     writes := writes w1 @ [json_path]\<rparr>)
                             | None \<Rightarrow>
                                 (Inr (),
                                  w1\<lparr>disk := (disk w1)(json_path := Writable (Some (JsonDoc
                                          \<lparr>total_files = length summaries, files = summaries\<rparr>))),
                                     writes := writes w1 @ [json_path],
                                     stdout := stdout w1 @
                                       [''File summaries JSON written: '' @ path_str json_path]\<rparr>))))))"
  by (simp add: generate_file_summaries_def Let_def print_def write_file_def encodable_def
      split: slot.splits option.splits)



text \<open>
  C2, as stated, fails: when the data document cannot be opened for writing, the run
  fails after the text document has been written, and the text document stays.
\<close>

theorem markdown_left_without_json:
  "fst (generate_file_summaries (Some example_tree) [''repo''] [''out''] None None False
          example_world_json_refused) = Inl (FileSummaryError IsADirectoryError) \<and>
   writes (snd (generate_file_summaries (Some example_tree) [''repo''] [''out''] None None False
          example_world_json_refused)) = [[''out'', ''file-summaries.md'']] \<and>
   disk example_world_json_refused [''out'', ''file-summaries.md''] = Writable None \<and>
   disk (snd (generate_file_summaries (Some example_tree) [''repo''] [''out''] None None False
          example_world_json_refused)) [''out'', ''file-summaries.md''] \<noteq> Writable None"
  by code_simp

text \<open>
  C2, amended. A run that is not a dry run fails only where opening or writing one of
  its two documents raises. When it fails, it has left no data document of its own, and
  the files are in one of five states: nothing was opened (the text
  document was refused); the text document was opened and is left empty (its content
  could not be encoded); the text document was opened and is left incomplete (the device
  stopped the write); the text document is written in full and the data document was
  refused; or the text document is written in full and the data document was opened and
  is left incomplete. The data document is opened only after the text document has been
  written in full. A run that returns normally has opened nothing (no file matched) or
  has written both documents in full, the text document first.
\<close>

theorem failed_report_states:
  assumes "generate_file_summaries fs root_path output_dir inc exd False w = (r, w')"
  shows "(\<forall>err. r = Inl err \<longrightarrow>
            (w' = w \<or>
             (writes w' = writes w @ [output_dir @ [''file-summaries.md'']] \<and>
              disk w' = (disk w)(output_dir @ [''file-summaries.md''] :=
                Writable (Some (Text [])))) \<or>
             (writes w' = writes w @ [output_dir @ [''file-summaries.md'']] \<and>
              disk w' = (disk w)(output_dir @ [''file-summaries.md''] :=
                Writable (Some Incomplete))) \<or>
             (writes w' = writes w @ [output_dir @ [''file-summaries.md'']] \<and>
              disk w' = (disk w)(output_dir @ [''file-summaries.md''] :=
                Writable (Some (Text (markdown_of (map (summary_of root_path)
                  (scan_files fs root_path inc None exd))))))) \<or>
             (writes w' = writes w @
                [output_dir @ [''file-summaries.md''], output_dir @ [''file-summaries.json'']] \<and>
              disk w' = (disk w)
                (output_dir @ [''file-summaries.md''] :=
                   Writable (Some (Text (markdown_of (map (summary_of root_path)
                     (scan_files fs root_path inc None exd))))),
                 output_dir @ [''file-summaries.json''] := Writable (Some Incomplete)))))
         \<and>
         (r = Inr () \<longrightarrow>
            (writes w' = writes w \<and> disk w' = disk w) \<or>
            (writes w' = writes w @
               [output_dir @ [''file-summaries.md''], output_dir @ [''file-summaries.json'']] \<and>
             disk w' = (disk w)
               (output_dir @ [''file-summaries.md''] :=
                  Writable (Some (Text (markdown_of (map (summary_of root_path)
                    (scan_files fs root_path inc None exd))))),
                output_dir @ [''file-summaries.json''] :=
                  Writable (Some (JsonDoc
                    \<lparr>total_files = length (scan_files fs root_path inc None exd),
                     files = map (summary_of root_path)
                       (scan_files fs root_path inc None exd)\<rparr>)))))"
  using assms unfolding generate_real Let_def print_def
  by (auto split: if_splits slot.splits option.splits)

theorem failed_report_states_witness:
  "fst (generate_file_summaries (Some example_tree) [''repo''] [''out''] None None False
          example_world_json_refused) = Inl (FileSummaryError IsADirectoryError) \<and>
   writes (snd (generate_file_summaries (Some example_tree) [''repo''] [''out''] None None False
          example_world_json_refused)) = [[''out'', ''file-summaries.md'']] \<and>
   disk (snd (generate_file_summaries (Some example_tree) [''repo''] [''out''] None None False
          example_world_json_refused)) [''out'', ''file-summaries.json''] =
     Refuses IsADirectoryError \<and>
   fst (generate_file_summaries (Some example_tree_bad_name) [''repo''] [''out''] None None False
          example_world_old_report) = Inl (FileSummaryError UnicodeEncodeError) \<and>
   disk example_world_old_report [''out'', ''file-summaries.md''] = Writable (Some (Text ''old'')) \<and>
   disk (snd (generate_file_summaries (Some example_tree_bad_name) [''repo''] [''out''] None None
          False example_world_old_report)) [''out'', ''file-summaries.md''] =
     Writable (Some (Text []))"
proof -
  obtain r w' where run: "generate_file_summaries (Some example_tree) [''repo''] [''out''] None None
      False example_world_json_refused = (r, w')"
    by (cases "generate_file_summaries (Some example_tree) [''repo''] [''out''] None None
      False example_world_json_refused")
  have res: "fst (generate_file_summaries (Some example_tree) [''repo''] [''out''] None None False
          example_world_json_refused) = Inl (FileSummaryError IsADirectoryError)"
    by code_simp
  have tr: "writes (snd (generate_file_summaries (Some example_tree) [''repo''] [''out''] None None
      False example_world_json_refused)) = [[''out'', ''file-summaries.md'']]"
    by code_simp
  have w0: "writes example_world_json_refused = []"
    "disk example_world_json_refused [''out'', ''file-summaries.json''] = Refuses IsADirectoryError"
    by (simp_all add: example_world_json_refused_def)
  from run res have r: "r = Inl (FileSummaryError IsADirectoryError)"
    by simp
  from failed_report_states [OF run] r w0 tr run
  have json: "disk w' [''out'', ''file-summaries.json''] = Refuses IsADirectoryError"
    by auto
  have bad: "fst (generate_file_summaries (Some example_tree_bad_name) [''repo''] [''out''] None None
      False example_world_old_report) = Inl (FileSummaryError UnicodeEncodeError)"
    "disk example_world_old_report [''out'', ''file-summaries.md''] = Writable (Some (Text ''old''))"
    "disk (snd (generate_file_summaries (Some example_tree_bad_name) [''repo''] [''out''] None None
          False example_world_old_report)) [''out'', ''file-summaries.md''] =
     Writable (Some (Text []))"
    by code_simp+
  from res tr json run bad show ?thesis
    by simp
qed

text \<open>
  C8. The report calls the scan with the include patterns and the excluded directory
  names only: the data document it writes holds the summaries of the files scanned with
  no file-exclude pattern, and these include every file the scan returns under any
  list of exclude patterns.
\<close>

theorem report_ignores_file_excludes:
  assumes "generate_file_summaries fs root_path output_dir inc exd False w = (Inr (), w')"
    and "scan_files fs root_path inc None exd \<noteq> []"
  shows "disk w' (output_dir @ [''file-summaries.json'']) =
           Writable (Some (JsonDoc
             \<lparr>total_files = length (scan_files fs root_path inc None exd),
              files = map (summary_of root_path) (scan_files fs root_path inc None exd)\<rparr>)) \<and>
         set (scan_files fs root_path inc exc exd) \<subseteq> set (scan_files fs root_path inc None exd)"
proof
  show "disk w' (output_dir @ [''file-summaries.json'']) =
           Writable (Some (JsonDoc
             \<lparr>total_files = length (scan_files fs root_path inc None exd),
              files = map (summary_of root_path) (scan_files fs root_path inc None exd)\<rparr>))"
    using assms unfolding generate_real Let_def print_def
    by (auto split: if_splits slot.splits option.splits)
next
  show "set (scan_files fs root_path inc exc exd) \<subseteq> set (scan_files fs root_path inc None exd)"
    by (rule scan_files_excludes_subset)
qed

theorem report_ignores_file_excludes_witness:
  "scan_files (Some example_tree) [''repo''] None (Some [''a.py'']) None =
     [[''repo'', ''a'', ''z.py'']] \<and>
   disk (snd (generate_file_summaries (Some example_tree) [''repo''] [''out''] None None False
          example_world)) [''out'', ''file-summaries.json''] =
     Writable (Some (JsonDoc
       \<lparr>total_files = 2,
        files = [\<lparr>s_path = ''a/z.py'', s_language = ''Python'', s_summary = ''Python module for z''\<rparr>,
                 \<lparr>s_path = ''a.py'', s_language = ''Python'', s_summary = ''Python module for a''\<rparr>]\<rparr>))"
proof -
  have "fst (generate_file_summaries (Some example_tree) [''repo''] [''out''] None None
      False example_world) = Inr ()"
    by code_simp
  then obtain w' where run: "generate_file_summaries (Some example_tree) [''repo''] [''out''] None None
      False example_world = (Inr (), w')"
    by (cases "generate_file_summaries (Some example_tree) [''repo''] [''out''] None None
      False example_world") simp
  have scanned: "scan_files (Some example_tree) [''repo''] None None None =
      [[''repo'', ''a'', ''z.py''], [''repo'', ''a.py'']]"
    by code_simp
  have excl: "scan_files (Some example_tree) [''repo''] None (Some [''a.py'']) None =
      [[''repo'', ''a'', ''z.py'']]"
    by code_simp
  have sums: "map (summary_of [''repo'']) [[''repo'', ''a'', ''z.py''], [''repo'', ''a.py'']] =
      [\<lparr>s_path = ''a/z.py'', s_language = ''Python'', s_summary = ''Python module for z''\<rparr>,
       \<lparr>s_path = ''a.py'', s_language = ''Python'', s_summary = ''Python module for a''\<rparr>]"
    by code_simp
  from report_ignores_file_excludes [OF run, of "Some [''a.py'']"] run scanned excl sums
  show ?thesis by simp
qed

end
